theory Spec2Isabelle
  imports Main "HOL-Library.Product_Lexorder"
begin

section \<open>Python values and errors\<close>

text \<open>
  The scripts are Python 2.7: a \<open>str\<close> is a byte string (\<open>string\<close> here), integers are
  unbounded (\<open>int\<close>), an exception is a value of \<open>error\<close> on the left of a sum.
\<close>

datatype error = KeyError | IndexError | ValueError | OSError | IOError

definition is_digit :: "char \<Rightarrow> bool" where
  "is_digit c = (c \<in> set ''0123456789'')"

definition is_space :: "char \<Rightarrow> bool" where
  \<comment> \<open>the characters \<open>str.strip()\<close> removes and \<open>\s\<close> matches: space, TAB, LF, VT, FF, CR\<close>
  "is_space c = (c \<in> {CHR '' '', CHR 0x09, CHR 0x0A, CHR 0x0B, CHR 0x0C, CHR 0x0D})"

definition strip :: "string \<Rightarrow> string" where
  "strip s = rev (dropWhile is_space (rev (dropWhile is_space s)))"

definition digit_val :: "char \<Rightarrow> int" where
  \<comment> \<open>the value of a decimal digit: its place in the row of the ten digits\<close>
  "digit_val c = int (length (takeWhile (\<lambda>d. d \<noteq> c) ''0123456789''))"

definition digits_val :: "string \<Rightarrow> int" where
  "digits_val ds = foldl (\<lambda>a c. 10 * a + digit_val c) 0 ds"

definition py_int :: "string \<Rightarrow> error + int" where
  \<comment> \<open>\<open>int(s)\<close> on a \<open>str\<close>: surrounding whitespace is ignored, one sign is allowed, the rest
      must be a non-empty run of decimal digits; anything else raises ValueError\<close>
  "py_int s =
     (let t = strip s;
          neg = (t \<noteq> [] \<and> hd t = CHR ''-'');
          ds = (if t \<noteq> [] \<and> (hd t = CHR ''-'' \<or> hd t = CHR ''+'') then tl t else t)
      in if ds \<noteq> [] \<and> list_all is_digit ds
         then Inr (if neg then - digits_val ds else digits_val ds)
         else Inl ValueError)"

section \<open>check\_excludes.py\<close>

record EpicsModule =
  major :: int
  minor :: int
  patch :: int
  exact :: bool

subsection \<open>The regular expressions\<close>

text \<open>
  \<open>re.match\<close> anchors at the start of the string only. Each pattern of the script is
  matched by a function that follows the pattern from left to right and returns the groups.
  The patterns are deterministic: after a greedy run of digits (or of digits and dots) the
  next pattern element is a dot, an optional plus or the end of the string, none of which
  a digit given back by backtracking could match, so the greedy choice is the only one.
\<close>

fun num_group :: "string \<Rightarrow> (string \<times> string) option" where
  \<comment> \<open>\<open>(0|[1-9][0-9]*)\<close>: the group and the rest of the string\<close>
  "num_group [] = None"
| "num_group (c # cs) =
     (if c = CHR ''0'' then Some ([c], cs)
      else if c \<in> set ''123456789'' then Some (c # takeWhile is_digit cs, dropWhile is_digit cs)
      else None)"

fun dot :: "string \<Rightarrow> string option" where
  \<comment> \<open>\<open>\.\<close>\<close>
  "dot [] = None"
| "dot (c # cs) = (if c = CHR ''.'' then Some cs else None)"

fun opt_plus :: "string \<Rightarrow> string \<times> string" where
  \<comment> \<open>\<open>(\+?)\<close>: the group and the rest\<close>
  "opt_plus [] = ([], [])"
| "opt_plus (c # cs) = (if c = CHR ''+'' then ([c], cs) else ([], c # cs))"

definition at_end :: "string \<Rightarrow> bool" where
  \<comment> \<open>\<open>$\<close> without MULTILINE: the end of the string, or just before a final newline\<close>
  "at_end s = (s = [] \<or> s = [CHR 0x0A])"

definition re_num1 :: "string \<Rightarrow> (string \<times> string) option" where
  \<comment> \<open>\<open>(0|[1-9][0-9]*)(\+?)\<close>\<close>
  "re_num1 s =
     (case num_group s of None \<Rightarrow> None
      | Some (a, r) \<Rightarrow> Some (a, fst (opt_plus r)))"

definition re_num2 :: "string \<Rightarrow> (string \<times> string \<times> string) option" where
  \<comment> \<open>\<open>(0|[1-9][0-9]*)\.(0|[1-9][0-9]*)(\+?)\<close>\<close>
  "re_num2 s =
     (case num_group s of None \<Rightarrow> None
      | Some (a, r) \<Rightarrow>
     (case dot r of None \<Rightarrow> None
      | Some r \<Rightarrow>
     (case num_group r of None \<Rightarrow> None
      | Some (b, r) \<Rightarrow> Some (a, b, fst (opt_plus r)))))"

definition re_num3_rest :: "string \<Rightarrow> ((string \<times> string \<times> string) \<times> string) option" where
  \<comment> \<open>\<open>(0|[1-9][0-9]*)\.(0|[1-9][0-9]*)\.(0|[1-9][0-9]*)\<close>: the three groups and the rest\<close>
  "re_num3_rest s =
     (case num_group s of None \<Rightarrow> None
      | Some (a, r) \<Rightarrow>
     (case dot r of None \<Rightarrow> None
      | Some r \<Rightarrow>
     (case num_group r of None \<Rightarrow> None
      | Some (b, r) \<Rightarrow>
     (case dot r of None \<Rightarrow> None
      | Some r \<Rightarrow>
     (case num_group r of None \<Rightarrow> None
      | Some (c, r) \<Rightarrow> Some ((a, b, c), r))))))"

definition re_num3 :: "string \<Rightarrow> (string \<times> string \<times> string \<times> string) option" where
  \<comment> \<open>\<open>(0|[1-9][0-9]*)\.(0|[1-9][0-9]*)\.(0|[1-9][0-9]*)(\+?)\<close>\<close>
  "re_num3 s =
     (case re_num3_rest s of None \<Rightarrow> None
      | Some ((a, b, c), r) \<Rightarrow> Some (a, b, c, fst (opt_plus r)))"

definition re_strict :: "string \<Rightarrow> bool" where
  \<comment> \<open>\<open>(0|[1-9][0-9]*)\.(0|[1-9][0-9]*)\.(0|[1-9][0-9]*)$\<close> matches\<close>
  "re_strict s = (case re_num3_rest s of None \<Rightarrow> False | Some (_, r) \<Rightarrow> at_end r)"

definition cond_tail :: "string \<Rightarrow> string \<Rightarrow> (string \<times> string \<times> string) option" where
  \<comment> \<open>\<open>([\d\.]*)(\+?)$\<close> after the operator \<open>cmp\<close> (the source's \<open>comp\<close>)\<close>
  "cond_tail cmp s =
     (let p = (\<lambda>c. is_digit c \<or> c = CHR ''.'');
          (g3, r) = opt_plus (dropWhile p s)
      in if at_end r then Some (cmp, takeWhile p s, g3) else None)"

fun re_condition :: "string \<Rightarrow> (string \<times> string \<times> string) option" where
  \<comment> \<open>\<open>^([<>]=?|=)([\d\.]*)(\+?)$\<close>: the three groups\<close>
  "re_condition [] = None"
| "re_condition (c # cs) =
     (if c = CHR ''<'' \<or> c = CHR ''>'' then
        (case cs of
           d # ds \<Rightarrow> if d = CHR ''='' then cond_tail [c, d] ds else cond_tail [c] cs
         | [] \<Rightarrow> cond_tail [c] cs)
      else if c = CHR ''='' then cond_tail [c] cs
      else None)"

subsection \<open>The functions\<close>

definition eval_comp :: "string \<Rightarrow> int \<Rightarrow> int \<Rightarrow> bool" where
  \<comment> \<open>\<open>eval('a {} b'.format(op))\<close> for the one-character operators \<open><\<close> and \<open>>\<close>\<close>
  "eval_comp op a b = (if op = ''<'' then a < b else a > b)"

definition module_compare :: "EpicsModule \<Rightarrow> EpicsModule \<Rightarrow> string \<Rightarrow> bool option" where
  \<comment> \<open>the result is None where the Python falls off the end of the function\<close>
  "module_compare lhs rhs cmp =
     (if cmp = ''<'' \<or> cmp = ''>'' then
        Some (eval_comp cmp (major lhs) (major rhs) \<or>
              (major lhs = major rhs \<and> eval_comp cmp (minor lhs) (minor rhs)) \<or>
              (major lhs = major rhs \<and> minor lhs = minor rhs \<and>
               eval_comp cmp (patch lhs) (patch rhs)))
      else if cmp = ''<='' \<or> cmp = ''>='' then
        Some (eval_comp [hd cmp] (major lhs) (major rhs) \<or>
              (major lhs = major rhs \<and> eval_comp [hd cmp] (minor lhs) (minor rhs)) \<or>
              (major lhs = major rhs \<and> minor lhs = minor rhs \<and>
               eval_comp [hd cmp] (patch lhs) (patch rhs)) \<or>
              (major lhs = major rhs \<and> minor lhs = minor rhs \<and> patch lhs = patch rhs))
      else if cmp = ''='' then
        Some (major lhs = major rhs \<and> minor lhs = minor rhs \<and> patch lhs = patch rhs)
      else None)"

definition mk_module :: "string \<Rightarrow> string \<Rightarrow> string \<Rightarrow> string \<Rightarrow> error + EpicsModule" where
  \<comment> \<open>\<open>EpicsModule(int(g1), int(g2), int(g3), not g4 == '+')\<close>, arguments evaluated in order\<close>
  "mk_module g1 g2 g3 g4 =
     (case py_int g1 of Inl e \<Rightarrow> Inl e | Inr a \<Rightarrow>
     (case py_int g2 of Inl e \<Rightarrow> Inl e | Inr b \<Rightarrow>
     (case py_int g3 of Inl e \<Rightarrow> Inl e | Inr c \<Rightarrow>
        Inr \<lparr>major = a, minor = b, patch = c, exact = (\<not> g4 = ''+'')\<rparr>)))"

definition version_to_tup :: "string \<Rightarrow> error + EpicsModule" where
  "version_to_tup version =
     (case re_num3 version of
        Some (g1, g2, g3, g4) \<Rightarrow> mk_module g1 g2 g3 g4
      | None \<Rightarrow>
     (case re_num2 version of
        Some (g1, g2, g3) \<Rightarrow> mk_module g1 g2 ''0'' g3
      | None \<Rightarrow>
     (case re_num1 version of
        Some (g1, g2) \<Rightarrow> mk_module g1 ''0'' ''0'' g2
      | None \<Rightarrow> Inr \<lparr>major = 0, minor = 0, patch = 0, exact = False\<rparr>)))"

fun check_conditions :: "string \<Rightarrow> string list \<Rightarrow> error + bool" where
  \<comment> \<open>the loop of \<open>check\<close> over the conditions\<close>
  "check_conditions version [] = Inr False"
| "check_conditions version (condition # conditions) =
     (case re_condition condition of
        None \<Rightarrow> Inr False
      | Some (g1, rversion, g3) \<Rightarrow>
          (let cmp = (if g3 = ''+'' then ''>='' else g1) in
           case version_to_tup version of Inl e \<Rightarrow> Inl e | Inr lhs \<Rightarrow>
          (case version_to_tup rversion of Inl e \<Rightarrow> Inl e | Inr rhs \<Rightarrow>
             if module_compare lhs rhs cmp = Some True then Inr True
             else check_conditions version conditions)))"

definition check :: "string \<Rightarrow> string list \<Rightarrow> error + bool" where
  "check version conditions =
     (if re_num3_rest version = None then Inr False
      else check_conditions version conditions)"

datatype version_arg = Str string | Tup EpicsModule

definition as_tup :: "version_arg \<Rightarrow> error + EpicsModule" where
  \<comment> \<open>\<open>version_to_tup(v) if isinstance(v, str) else v\<close>\<close>
  "as_tup v = (case v of Str s \<Rightarrow> version_to_tup s | Tup m \<Rightarrow> Inr m)"

definition match_tup :: "EpicsModule \<Rightarrow> EpicsModule \<Rightarrow> bool" where
  \<comment> \<open>the boolean expression \<open>module_match\<close> returns, on the two tuples\<close>
  "match_tup ver oth =
     (major ver = 0 \<or> (
        exact ver \<and> (
          (minor ver = 0 \<and> major oth = major ver) \<or>
          (patch ver = 0 \<and> major oth = major ver \<and> minor oth = minor ver) \<or>
          (major ver = major ver \<and> minor oth = minor ver \<and> patch oth = patch ver)
          )
        ) \<or> (
        \<not> exact ver \<and> (
          (minor ver = 0 \<and> major oth \<ge> major ver) \<or>
          (patch ver = 0 \<and> major oth = major oth \<and> minor oth \<ge> minor ver) \<or>
          (major oth = major ver \<and> minor oth = minor ver \<and> patch oth \<ge> patch ver))))"

definition module_match :: "version_arg \<Rightarrow> version_arg \<Rightarrow> error + bool" where
  "module_match version other =
     (case as_tup version of Inl e \<Rightarrow> Inl e | Inr ver \<Rightarrow>
     (case as_tup other of Inl e \<Rightarrow> Inl e | Inr oth \<Rightarrow> Inr (match_tup ver oth)))"

section \<open>get\_prerequisites.py\<close>

subsection \<open>Strings and paths\<close>

definition rsplit1 :: "char \<Rightarrow> string \<Rightarrow> string \<times> string option" where
  \<comment> \<open>\<open>s.rsplit(sep, 1)\<close>: the list \<open>[a, b]\<close> is \<open>(a, Some b)\<close>, the list \<open>[s]\<close> is \<open>(s, None)\<close>\<close>
  "rsplit1 sep s =
     (if sep \<in> set s
      then (rev (tl (dropWhile (\<lambda>c. c \<noteq> sep) (rev s))),
            Some (rev (takeWhile (\<lambda>c. c \<noteq> sep) (rev s))))
      else (s, None))"

fun splitn :: "char \<Rightarrow> nat \<Rightarrow> string \<Rightarrow> string list" where
  \<comment> \<open>\<open>s.split(sep, n)\<close>: at most \<open>n\<close> splits, from the left\<close>
  "splitn sep 0 s = [s]"
| "splitn sep (Suc n) s =
     (if sep \<in> set s
      then takeWhile (\<lambda>c. c \<noteq> sep) s # splitn sep n (tl (dropWhile (\<lambda>c. c \<noteq> sep) s))
      else [s])"

definition split :: "char \<Rightarrow> string \<Rightarrow> string list" where
  \<comment> \<open>\<open>s.split(sep)\<close>: a string has no more separators than characters\<close>
  "split sep s = splitn sep (length s) s"

definition join2 :: "string \<Rightarrow> string \<Rightarrow> string" where
  \<comment> \<open>one step of \<open>posixpath.join\<close>\<close>
  "join2 path b =
     (if b \<noteq> [] \<and> hd b = CHR ''/'' then b
      else if path = [] \<or> last path = CHR ''/'' then path @ b
      else path @ ''/'' @ b)"

definition path_join :: "string \<Rightarrow> string list \<Rightarrow> string" where
  \<comment> \<open>\<open>os.path.join(a, *p)\<close>\<close>
  "path_join a p = foldl join2 a p"

definition contains :: "string \<Rightarrow> string \<Rightarrow> bool" where
  \<comment> \<open>\<open>sub in s\<close>\<close>
  "contains sub s = (\<exists>i \<in> set [0 ..< Suc (length s)]. take (length sub) (drop i s) = sub)"

definition truthy :: "string option \<Rightarrow> bool" where
  \<comment> \<open>the truth value of a version: None and the empty string are false\<close>
  "truthy v = (v \<noteq> None \<and> v \<noteq> Some [])"

subsection \<open>The file system and the environment\<close>

text \<open>
  What the script reads: \<open>os.environ\<close>, regular files (as their lines, each with its line
  end), directories (as \<open>os.listdir\<close> gives them), symbolic links and \<open>os.walk\<close>. The tree
  is read only and does not change during a run.
\<close>

record world =
  environ :: "string \<rightharpoonup> string"
  fs_files :: "string \<rightharpoonup> string list"
  fs_dirs :: "string \<rightharpoonup> string list"
  fs_links :: "string \<Rightarrow> bool"
  fs_walk :: "string \<Rightarrow> (string \<times> string list) list"

definition getenv :: "world \<Rightarrow> string \<Rightarrow> error + string" where
  \<comment> \<open>\<open>os.environ[k]\<close>\<close>
  "getenv w k = (case environ w k of None \<Rightarrow> Inl KeyError | Some v \<Rightarrow> Inr v)"

definition isfile :: "world \<Rightarrow> string \<Rightarrow> bool" where
  "isfile w p = (fs_files w p \<noteq> None)"

definition isdir :: "world \<Rightarrow> string \<Rightarrow> bool" where
  "isdir w p = (fs_dirs w p \<noteq> None)"

definition listdir :: "world \<Rightarrow> string \<Rightarrow> error + string list" where
  "listdir w p = (case fs_dirs w p of None \<Rightarrow> Inl OSError | Some es \<Rightarrow> Inr es)"

definition open_lines :: "world \<Rightarrow> string \<Rightarrow> error + string list" where
  \<comment> \<open>\<open>open(p)\<close> and the iteration over its lines\<close>
  "open_lines w p = (case fs_files w p of None \<Rightarrow> Inl IOError | Some ls \<Rightarrow> Inr ls)"

subsection \<open>Version selection\<close>

definition module_key :: "string \<Rightarrow> error + (int \<times> int \<times> int)" where
  "module_key version =
     (case splitn CHR ''.'' 2 version of
        [a, b, c] \<Rightarrow>
          (case py_int a of Inl e \<Rightarrow> Inl e | Inr x \<Rightarrow>
          (case py_int b of Inl e \<Rightarrow> Inl e | Inr y \<Rightarrow>
          (case py_int c of Inl e \<Rightarrow> Inl e | Inr z \<Rightarrow> Inr (x, y, z))))
      | _ \<Rightarrow> Inr (0, 0, 0))"

fun search_lines :: "string list \<Rightarrow> string \<Rightarrow> error + string option" where
  \<comment> \<open>the loop of \<open>search_dep_file\<close>; \<open>lsplit[1]\<close> raises IndexError on a line without comma\<close>
  "search_lines [] module = Inr None"
| "search_lines (line # lines) module =
     (case rsplit1 CHR '','' (strip line) of
        (l0, l1) \<Rightarrow>
          if l0 = module
          then (case l1 of None \<Rightarrow> Inl IndexError | Some v \<Rightarrow> Inr (Some v))
          else search_lines lines module)"

definition search_dep_file :: "world \<Rightarrow> string \<Rightarrow> string \<Rightarrow> error + string option" where
  "search_dep_file w depfile module =
     (case open_lines w depfile of Inl e \<Rightarrow> Inl e | Inr ls \<Rightarrow> search_lines ls module)"

definition default_lookup :: "world \<Rightarrow> string \<Rightarrow> string \<Rightarrow> error + string option" where
  \<comment> \<open>\<open>if os.path.isfile(f): version = search_dep_file(f, module)\<close>; None without the file\<close>
  "default_lookup w f module =
     (if isfile w f then search_dep_file w f module else Inr None)"

definition arch_default_path :: "string \<Rightarrow> string \<Rightarrow> string \<Rightarrow> string" where
  "arch_default_path bases epics_base_version target_arch =
     path_join (path_join bases [''base-'' @ epics_base_version])
       [''configure'', ''default.'' @ target_arch @ ''.dep'']"

definition epics_default_path :: "string \<Rightarrow> string \<Rightarrow> string" where
  "epics_default_path bases epics_base_version =
     path_join (path_join bases [''base-'' @ epics_base_version])
       [''configure'', ''default.dep'']"

definition installed_versions ::
  "world \<Rightarrow> string \<Rightarrow> string \<Rightarrow> string \<Rightarrow> string \<Rightarrow> string list" where
  \<comment> \<open>the set \<open>installed_versions\<close> for the directory \<open>module_dir\<close>, as a list without
      repetition; the order in which Python iterates over a set is not specified, here it
      is the order of the listing\<close>
  "installed_versions w module_dir module epics_base_version target_arch =
     (case fs_dirs w module_dir of
        None \<Rightarrow> []
      | Some versions \<Rightarrow>
          remdups (filter (\<lambda>version.
            isfile w (path_join module_dir
              [version, epics_base_version, ''lib'', target_arch, module @ ''.dep''])
            \<and> re_strict version) versions))"

fun keyed :: "string list \<Rightarrow> error + ((int \<times> int \<times> int) \<times> string) list" where
  \<comment> \<open>the keys \<open>sorted\<close> computes, one \<open>module_key\<close> call per element\<close>
  "keyed [] = Inr []"
| "keyed (v # vs) =
     (case module_key v of Inl e \<Rightarrow> Inl e | Inr k \<Rightarrow>
     (case keyed vs of Inl e \<Rightarrow> Inl e | Inr ks \<Rightarrow> Inr ((k, v) # ks)))"

definition sorted_by_key :: "string list \<Rightarrow> error + string list" where
  \<comment> \<open>\<open>sorted(vs, key=module_key)\<close>: a stable sort on the keys\<close>
  "sorted_by_key vs =
     (case keyed vs of Inl e \<Rightarrow> Inl e | Inr ks \<Rightarrow> Inr (map snd (sort_key fst ks)))"

fun first_match :: "string \<Rightarrow> string list \<Rightarrow> error + string option" where
  \<comment> \<open>the loop \<open>for version in ...: if module_match(comp_version, version): return version\<close>\<close>
  "first_match comp_version [] = Inr None"
| "first_match comp_version (version # versions) =
     (case module_match (Str comp_version) (Str version) of
        Inl e \<Rightarrow> Inl e
      | Inr b \<Rightarrow> if b then Inr (Some version) else first_match comp_version versions)"

definition module_version ::
  "world \<Rightarrow> string \<Rightarrow> string \<Rightarrow> string \<Rightarrow> string \<Rightarrow> error + string option" where
  "module_version w module comp_version epics_base_version target_arch =
     (case getenv w ''EPICS_BASES_PATH'' of Inl e \<Rightarrow> Inl e | Inr bases \<Rightarrow>
     (case default_lookup w (arch_default_path bases epics_base_version target_arch) module of
        Inl e \<Rightarrow> Inl e
      | Inr version \<Rightarrow>
          if truthy version then Inr version
          else
     (case default_lookup w (epics_default_path bases epics_base_version) module of
        Inl e \<Rightarrow> Inl e
      | Inr version \<Rightarrow>
          if truthy version then Inr version
          else
     (case getenv w ''EPICS_MODULES_PATH'' of Inl e \<Rightarrow> Inl e | Inr mods \<Rightarrow>
        (let installed = installed_versions w (path_join mods [module]) module
                           epics_base_version target_arch
         in if installed \<noteq> []
            then (case sorted_by_key installed of
                    Inl e \<Rightarrow> Inl e
                  | Inr sorted_installed_versions \<Rightarrow>
                      first_match comp_version (rev sorted_installed_versions))
            else Inr None)))))"

subsection \<open>DependencyResolver\<close>

type_synonym dependency = "string \<times> string option"

record files_arg =
  files_dep :: "string list"
  files_db :: "string list"
  files_subs :: "string list"

record matches =
  matches_headers :: "string set"
  matches_records :: "string set"
  matches_dtyps :: "(string \<times> string) set"
  matches_templates :: "string set"

record resolver =
  self_name :: string
  self_files :: files_arg
  self_prefix :: string
  self_eb_version :: string
  self_ta :: string
  self_ud :: "string list"
  self_dependencies :: "dependency set"
  self_matches :: matches

text \<open>
  The regular expressions of the evidence scan are parameters of the model; what is proved
  about the resolver holds whatever they extract from a line.
  \<^item> \<open>re_header line\<close>: the groups of \<open>re.finditer(r'(?<=\s)([^/][^\s]*\.h)', line)\<close>;
  \<^item> \<open>re_record line\<close>: the group of \<open>re.match(r'\s*record\s*\(\s*"?([^\s",]+),', line)\<close>;
  \<^item> \<open>re_dtyp line\<close>: the group of \<open>re.match(r'^\s*field\(\s*DTYP\s*,\s*"?([^"]+)"?\s*\)', line)\<close>;
  \<^item> \<open>re_file line\<close>: the group of \<open>re.match(r'^\s*file\s*"?([^"\s]+)"?', line)\<close>;
  \<^item> \<open>re_device dtyp line\<close>: whether the pattern \<open>find_dtyps\<close> builds from the pair
    \<open>dtyp\<close> matches the line.
\<close>

record scanners =
  re_header :: "string \<Rightarrow> string list"
  re_record :: "string \<Rightarrow> string option"
  re_dtyp :: "string \<Rightarrow> string option"
  re_file :: "string \<Rightarrow> string option"
  re_device :: "string \<times> string \<Rightarrow> string \<Rightarrow> bool"

definition EPICS_BASE_RECORDS :: "string list" where
  "EPICS_BASE_RECORDS =
     [''aai'', ''aao'', ''ai'', ''ao'', ''aSub'', ''bi'', ''bo'', ''calc'', ''calcout'',
      ''compress'', ''dfanout'', ''event'', ''fanout'', ''histogram'', ''longin'', ''longout'',
      ''lsi'', ''lso'', ''mbbi'', ''mbbiDirect'', ''mbbo'', ''mbboDirect'', ''permissive'',
      ''printf'', ''sel'', ''seq'', ''state'', ''stringin'', ''stringout'', ''sub'',
      ''subArray'', ''waveform'']"

definition EPICS_BASE_DEVICESUPPORTS :: "string list" where
  "EPICS_BASE_DEVICESUPPORTS =
     [''Async Soft Channel'', ''Db State'', ''General Time'', ''Raw Soft Channel'',
      ''Soft Channel'', ''Soft Timestamp'', ''stdio'', ''Test Asyn'']"

definition ud_name :: "string \<Rightarrow> string" where
  \<comment> \<open>\<open>module.rsplit(',', 1)[0]\<close>\<close>
  "ud_name module = fst (rsplit1 CHR '','' module)"

definition ud_version :: "world \<Rightarrow> string \<Rightarrow> string \<Rightarrow> string \<Rightarrow> error + string option" where
  \<comment> \<open>the \<open>moduleversion\<close> of a user dependency: the one given, or the one looked up\<close>
  "ud_version w eb_version ta module =
     (case rsplit1 CHR '','' module of
        (modulename, Some moduleversion) \<Rightarrow> Inr (Some moduleversion)
      | (modulename, None) \<Rightarrow> module_version w modulename [] eb_version ta)"

fun init_ud ::
  "world \<Rightarrow> string \<Rightarrow> string \<Rightarrow> string \<Rightarrow> string list \<Rightarrow> dependency set \<Rightarrow> error + dependency set"
where
  \<comment> \<open>the loop of \<open>__init__\<close> over the user dependencies (the check of the characters of the
      name only writes a warning)\<close>
  "init_ud w name eb_version ta [] deps = Inr deps"
| "init_ud w name eb_version ta (module # ud) deps =
     (case ud_version w eb_version ta module of
        Inl e \<Rightarrow> Inl e
      | Inr moduleversion \<Rightarrow>
          if ud_name module = name then init_ud w name eb_version ta ud deps
          else init_ud w name eb_version ta ud (insert (ud_name module, moduleversion) deps))"

definition DependencyResolver ::
  "world \<Rightarrow> string \<Rightarrow> files_arg \<Rightarrow> string \<Rightarrow> string \<Rightarrow> string \<Rightarrow> string list \<Rightarrow> error + resolver"
where
  "DependencyResolver w name files prefix eb_version ta ud =
     (case init_ud w name eb_version ta ud {} of
        Inl e \<Rightarrow> Inl e
      | Inr deps \<Rightarrow>
          Inr \<lparr>self_name = name, self_files = files, self_prefix = prefix,
               self_eb_version = eb_version, self_ta = ta, self_ud = ud,
               self_dependencies = deps,
               self_matches = \<lparr>matches_headers = {}, matches_records = {},
                                matches_dtyps = {}, matches_templates = {}\<rparr>\<rparr>)"

definition depends_on :: "resolver \<Rightarrow> string \<Rightarrow> bool" where
  "depends_on self modulename = (modulename \<in> fst ` self_dependencies self)"

definition add_dependency :: "world \<Rightarrow> resolver \<Rightarrow> string \<Rightarrow> error + resolver" where
  "add_dependency w self modulename =
     (if modulename \<in> set (map ud_name (self_ud self)) then Inr self
      else (case module_version w modulename [] (self_eb_version self) (self_ta self) of
              Inl e \<Rightarrow> Inl e
            | Inr v \<Rightarrow>
                Inr (self\<lparr>self_dependencies := insert (modulename, v) (self_dependencies self)\<rparr>)))"

definition find_headers :: "world \<Rightarrow> resolver \<Rightarrow> string \<Rightarrow> bool" where
  "find_headers w self common_dir =
     (\<exists>header \<in> matches_headers (self_matches self).
      \<exists>(root, files) \<in> set (fs_walk w common_dir).
      \<exists>headerfile \<in> set files.
        path_join (drop (length common_dir + 1) root) [headerfile] = header \<or> headerfile = header)"

definition find_records :: "resolver \<Rightarrow> string list \<Rightarrow> bool" where
  \<comment> \<open>on the lines of the dbd file\<close>
  "find_records self lines =
     (\<exists>record \<in> matches_records (self_matches self).
      \<exists>line \<in> set lines. contains (''recordtype('' @ record @ '')'') line)"

definition find_dtyps :: "scanners \<Rightarrow> resolver \<Rightarrow> string list \<Rightarrow> bool" where
  \<comment> \<open>on the lines of the dbd file\<close>
  "find_dtyps sc self lines =
     (\<exists>dtyp \<in> matches_dtyps (self_matches self). \<exists>line \<in> set lines. re_device sc dtyp line)"

definition find_templates :: "resolver \<Rightarrow> string list \<Rightarrow> bool" where
  \<comment> \<open>on the listing of the db directory\<close>
  "find_templates self entries =
     (\<exists>template \<in> matches_templates (self_matches self).
      \<exists>templfile \<in> set entries. templfile = template)"

definition scan_dep :: "world \<Rightarrow> scanners \<Rightarrow> string list \<Rightarrow> matches \<Rightarrow> matches" where
  \<comment> \<open>the loop over \<open>files['dep']\<close>; a missing file is skipped\<close>
  "scan_dep w sc dfiles ms =
     fold (\<lambda>dfile ms.
       case fs_files w dfile of
         None \<Rightarrow> ms
       | Some lines \<Rightarrow>
           fold (\<lambda>line ms.
             ms\<lparr>matches_headers := matches_headers ms \<union> set (re_header sc line)\<rparr>) lines ms)
       dfiles ms"

definition scan_db_line :: "scanners \<Rightarrow> string \<Rightarrow> string \<times> matches \<Rightarrow> string \<times> matches" where
  \<comment> \<open>one line of a db file; the state is \<open>last_record\<close> and the evidence\<close>
  "scan_db_line sc line st =
     (let st1 =
        (case re_record sc line of
           None \<Rightarrow> st
         | Some g \<Rightarrow>
             (g, if g \<notin> set EPICS_BASE_RECORDS
                 then (snd st)\<lparr>matches_records := insert g (matches_records (snd st))\<rparr>
                 else snd st))
      in case re_dtyp sc line of
           None \<Rightarrow> st1
         | Some g \<Rightarrow>
             (fst st1, if g \<notin> set EPICS_BASE_DEVICESUPPORTS
                       then (snd st1)\<lparr>matches_dtyps := insert (fst st1, g) (matches_dtyps (snd st1))\<rparr>
                       else snd st1))"

definition scan_db :: "world \<Rightarrow> scanners \<Rightarrow> string list \<Rightarrow> matches \<Rightarrow> matches" where
  \<comment> \<open>the loop over \<open>files['db']\<close>\<close>
  "scan_db w sc dbfiles ms =
     fold (\<lambda>dbfile ms.
       case fs_files w dbfile of
         None \<Rightarrow> ms
       | Some lines \<Rightarrow> snd (fold (scan_db_line sc) lines ([], ms)))
       dbfiles ms"

definition scan_subs :: "world \<Rightarrow> scanners \<Rightarrow> string list \<Rightarrow> matches \<Rightarrow> matches" where
  \<comment> \<open>the loop over \<open>files['subs']\<close>\<close>
  "scan_subs w sc subsfiles ms =
     fold (\<lambda>subsfile ms.
       case fs_files w subsfile of
         None \<Rightarrow> ms
       | Some lines \<Rightarrow>
           fold (\<lambda>line ms.
             case re_file sc line of
               None \<Rightarrow> ms
             | Some g \<Rightarrow> ms\<lparr>matches_templates := insert g (matches_templates ms)\<rparr>) lines ms)
       subsfiles ms"

definition provides :: "world \<Rightarrow> scanners \<Rightarrow> resolver \<Rightarrow> string \<Rightarrow> string \<Rightarrow> string \<Rightarrow> bool" where
  \<comment> \<open>the four tests on one version directory, in the order of the source: whether one of
      them reaches \<open>add_dependency\<close>\<close>
  "provides w sc self installed_module modulepath version =
     (let db_dir = path_join modulepath [version, ''db''];
          header_dir = path_join modulepath [version, self_eb_version self, ''include''];
          dbd_file = path_join modulepath
                       [version, self_eb_version self, ''dbd'', installed_module @ ''.dbd'']
      in (isdir w header_dir \<and> find_headers w self header_dir) \<or>
         (case fs_files w dbd_file of
            None \<Rightarrow> False
          | Some lines \<Rightarrow> find_records self lines \<or> find_dtyps sc self lines) \<or>
         (case fs_dirs w db_dir of
            None \<Rightarrow> False
          | Some entries \<Rightarrow> find_templates self entries))"

fun resolve_versions ::
  "world \<Rightarrow> scanners \<Rightarrow> resolver \<Rightarrow> string \<Rightarrow> string \<Rightarrow> string list \<Rightarrow> error + resolver"
where
  \<comment> \<open>the loop over the versions of one installed module; \<open>add_dependency\<close> is followed by
      \<open>break\<close>\<close>
  "resolve_versions w sc self installed_module modulepath [] = Inr self"
| "resolve_versions w sc self installed_module modulepath (version # versions) =
     (if \<not> isdir w (path_join modulepath [version])
      then resolve_versions w sc self installed_module modulepath versions
      else if \<not> re_strict version
      then resolve_versions w sc self installed_module modulepath versions
      else if provides w sc self installed_module modulepath version
      then add_dependency w self installed_module
      else resolve_versions w sc self installed_module modulepath versions)"

fun resolve_modules :: "world \<Rightarrow> scanners \<Rightarrow> resolver \<Rightarrow> string list \<Rightarrow> error + resolver" where
  \<comment> \<open>the loop over the installed modules\<close>
  "resolve_modules w sc self [] = Inr self"
| "resolve_modules w sc self (installed_module # rest) =
     (let modulepath = path_join (self_prefix self) [installed_module] in
      if installed_module = self_name self then resolve_modules w sc self rest
      else if depends_on self installed_module then resolve_modules w sc self rest
      else if \<not> isdir w modulepath \<or> fs_links w modulepath then resolve_modules w sc self rest
      else (case listdir w modulepath of
              Inl e \<Rightarrow> Inl e
            | Inr versions \<Rightarrow>
                (case resolve_versions w sc self installed_module modulepath versions of
                   Inl e \<Rightarrow> Inl e
                 | Inr self' \<Rightarrow> resolve_modules w sc self' rest)))"

definition resolve :: "world \<Rightarrow> scanners \<Rightarrow> resolver \<Rightarrow> error + resolver" where
  "resolve w sc self =
     (let ms = scan_subs w sc (files_subs (self_files self))
                 (scan_db w sc (files_db (self_files self))
                   (scan_dep w sc (files_dep (self_files self)) (self_matches self)));
          self1 = self\<lparr>self_matches := ms\<rparr>
      in case listdir w (self_prefix self) of
           Inl e \<Rightarrow> Inl e
         | Inr installed \<Rightarrow> resolve_modules w sc self1 installed)"

definition list_deps :: "resolver \<Rightarrow> dependency set" where
  "list_deps self = self_dependencies self"

definition resolved_deps ::
  "world \<Rightarrow> scanners \<Rightarrow> string \<Rightarrow> files_arg \<Rightarrow> string \<Rightarrow> string \<Rightarrow> string \<Rightarrow> string list
   \<Rightarrow> error + dependency set" where
  \<comment> \<open>as \<open>main\<close> does: \<open>dpres = DependencyResolver(...); dpres.resolve(); dpres.list_deps()\<close>\<close>
  "resolved_deps w sc name files prefix eb_version ta ud =
     (case DependencyResolver w name files prefix eb_version ta ud of
        Inl e \<Rightarrow> Inl e
      | Inr dpres \<Rightarrow>
          (case resolve w sc dpres of
             Inl e \<Rightarrow> Inl e
           | Inr dpres' \<Rightarrow> Inr (list_deps dpres')))"

subsection \<open>recursive\_solve\<close>

record args =
  args_prefix :: string
  args_epicsbase :: string
  args_targetarch :: string

definition depfile_path :: "string \<Rightarrow> args \<Rightarrow> string \<Rightarrow> string \<Rightarrow> string" where
  \<comment> \<open>the \<open>depfile\<close> of \<open>recursive_solve\<close>, under the value \<open>mods\<close> of EPICS\_MODULES\_PATH\<close>
  "depfile_path mods a name version =
     path_join mods [name, version, args_epicsbase a, ''lib'', args_targetarch a, name @ ''.dep'']"

definition include_path :: "args \<Rightarrow> string \<Rightarrow> string \<Rightarrow> string" where
  \<comment> \<open>the \<open>module_path\<close> of \<open>recursive_solve\<close>\<close>
  "include_path a name version =
     path_join (args_prefix a) [name, version, args_epicsbase a, ''include'']"

definition line_module :: "world \<Rightarrow> args \<Rightarrow> string \<Rightarrow> error + dependency" where
  \<comment> \<open>the \<open>rmodule\<close> of one line of a dependency file\<close>
  "line_module w a line =
     (case split CHR '','' (strip line) of
        [] \<Rightarrow> Inl IndexError
      | [d0, d1] \<Rightarrow>
          (case module_version w d0 d1 (args_epicsbase a) (args_targetarch a) of
             Inl e \<Rightarrow> Inl e | Inr v \<Rightarrow> Inr (d0, v))
      | d0 # _ \<Rightarrow>
          (case module_version w d0 [] (args_epicsbase a) (args_targetarch a) of
             Inl e \<Rightarrow> Inl e | Inr v \<Rightarrow> Inr (d0, v)))"

text \<open>
  The depth is a natural number: \<open>main\<close> calls \<open>recursive_solve\<close> with the default 10, and
  every recursive call passes the depth less one.
\<close>

fun recursive_solve :: "world \<Rightarrow> args \<Rightarrow> dependency \<Rightarrow> nat \<Rightarrow> error + dependency set"
  and solve_lines ::
    "world \<Rightarrow> args \<Rightarrow> string list \<Rightarrow> nat \<Rightarrow> dependency set \<Rightarrow> error + dependency set"
where
  "recursive_solve w a module 0 = Inr {}"
| "recursive_solve w a module (Suc depth) =
     (let deps = {module} in
      case snd module of
        None \<Rightarrow> Inr deps
      | Some version \<Rightarrow>
          if version = [] then Inr deps
          else if \<not> isdir w (include_path a (fst module) version) then Inr deps
          else (case getenv w ''EPICS_MODULES_PATH'' of
                  Inl e \<Rightarrow> Inl e
                | Inr mods \<Rightarrow>
                    (case fs_files w (depfile_path mods a (fst module) version) of
                       None \<Rightarrow> Inr deps
                     | Some lines \<Rightarrow> solve_lines w a lines depth deps)))"
| "solve_lines w a [] depth deps = Inr deps"
| "solve_lines w a (line # lines) depth deps =
     (case line_module w a line of
        Inl e \<Rightarrow> Inl e
      | Inr rmodule \<Rightarrow>
          (case recursive_solve w a rmodule depth of
             Inl e \<Rightarrow> Inl e
           | Inr ds \<Rightarrow> solve_lines w a lines depth (deps \<union> ds)))"

subsection \<open>What the spec asks of the results\<close>

text \<open>
  The words of the spec for the third source of a version: among the entries of the
  directory of the module that are strictly numeric versions \<open>MAJOR.MINOR.PATCH\<close>, the
  highest one in the order of major, minor and patch that satisfies \<open>module_match\<close>
  against the comparison version; no version when none satisfies it. These definitions do
  not use the functions of the script that select and sort the versions.
\<close>

definition numeral :: "string \<Rightarrow> bool" where
  \<comment> \<open>a decimal number without a leading zero\<close>
  "numeral s = (s \<noteq> [] \<and> list_all is_digit s \<and> (hd s = CHR ''0'' \<longrightarrow> s = ''0''))"









definition unique_names :: "dependency set \<Rightarrow> bool" where
  \<comment> \<open>a module name occurs in one pair at most\<close>
  "unique_names deps = (\<forall>(m, v1) \<in> deps. \<forall>(m', v2) \<in> deps. m = m' \<longrightarrow> v1 = v2)"

definition detected :: "resolver \<Rightarrow> resolver \<Rightarrow> bool" where
  \<comment> \<open>how the detection may change a resolver: it only adds pairs, for modules outside
      the user dependencies, and keeps the names unique\<close>
  "detected self self' =
     (self_ud self' = self_ud self \<and> self_name self' = self_name self \<and>
      self_dependencies self \<subseteq> self_dependencies self' \<and>
      (\<forall>(m, v) \<in> self_dependencies self' - self_dependencies self.
         m \<notin> set (map ud_name (self_ud self))) \<and>
      (unique_names (self_dependencies self) \<longrightarrow> unique_names (self_dependencies self')))"

subsection \<open>An example installation\<close>

text \<open>
  A small tree the theorems below are run on: a base 3.15 with a default file naming
  \<open>asyn\<close> and one for the architecture naming \<open>seq\<close>, a module \<open>foo\<close> installed in
  three numeric versions and one directory \<open>beta\<close>, a module \<open>baz\<close> that provides the
  template \<open>baz.template\<close>, a module \<open>qux\<close> with headers and no dependency file, and the
  sources of an application whose substitution file uses \<open>baz.template\<close>.
\<close>

definition world1 :: world where
  "world1 =
     \<lparr>environ = map_of [(''EPICS_BASES_PATH'', ''/epics/bases''),
                        (''EPICS_MODULES_PATH'', ''/epics/modules'')],
      fs_files = map_of
        [(''/epics/bases/base-3.15/configure/default.linux.dep'', [''seq,2.2.0'' @ [CHR 0x0A]]),
         (''/epics/bases/base-3.15/configure/default.dep'', [''asyn,4.21.0'' @ [CHR 0x0A]]),
         (''/epics/modules/foo/1.9.0/3.15/lib/linux/foo.dep'', []),
         (''/epics/modules/foo/1.10.0/3.15/lib/linux/foo.dep'', [''asyn,4+'' @ [CHR 0x0A]]),
         (''/epics/modules/foo/2.0.0/3.15/lib/linux/foo.dep'', []),
         (''/epics/modules/baz/3.0.0/3.15/lib/linux/baz.dep'', []),
         (''/src/app.substitutions'',
            [''file '' @ [CHR 0x22] @ ''baz.template'' @ [CHR 0x22, CHR 0x0A]])],
      fs_dirs = map_of
        [(''/epics/modules'', [''foo'', ''baz'', ''qux'']),
         (''/epics/modules/foo'', [''1.9.0'', ''1.10.0'', ''2.0.0'', ''beta'']),
         (''/epics/modules/foo/1.9.0'', [''3.15'']),
         (''/epics/modules/foo/1.10.0'', [''3.15'']),
         (''/epics/modules/foo/1.10.0/3.15/include'', []),
         (''/epics/modules/foo/2.0.0'', [''3.15'']),
         (''/epics/modules/baz'', [''3.0.0'']),
         (''/epics/modules/baz/3.0.0'', [''3.15'', ''db'']),
         (''/epics/modules/baz/3.0.0/db'', [''baz.template'']),
         (''/epics/modules/qux'', [''1.0.0'']),
         (''/epics/modules/qux/1.0.0'', [''3.15'']),
         (''/epics/modules/qux/1.0.0/3.15/include'', [])],
      fs_links = (\<lambda>p. False),
      fs_walk = (\<lambda>p. [])\<rparr>"

definition args1 :: args where
  "args1 = \<lparr>args_prefix = ''/epics/modules'', args_epicsbase = ''3.15'', args_targetarch = ''linux''\<rparr>"

definition files1 :: files_arg where
  "files1 = \<lparr>files_dep = [], files_db = [], files_subs = [''/src/app.substitutions'']\<rparr>"

definition scanners1 :: scanners where
  \<comment> \<open>an instance of the matchers for the examples: it knows only lines that begin with
      \<open>file "\<close>, and takes the name up to the next double quote\<close>
  "scanners1 =
     \<lparr>re_header = (\<lambda>line. []),
      re_record = (\<lambda>line. None),
      re_dtyp = (\<lambda>line. None),
      re_file = (\<lambda>line. if take 6 line = ''file '' @ [CHR 0x22]
                          then Some (takeWhile (\<lambda>c. c \<noteq> CHR 0x22) (drop 6 line)) else None),
      re_device = (\<lambda>dtyp line. False)\<rparr>"

section \<open>Properties of check\_excludes.py\<close>

subsection \<open>Parsing never raises\<close>

lemma digit_not_space: "is_digit c \<Longrightarrow> \<not> is_space c"
  by (auto simp: is_digit_def is_space_def)

lemma digit_not_sign: "is_digit c \<Longrightarrow> c \<noteq> CHR ''-'' \<and> c \<noteq> CHR ''+'' \<and> c \<noteq> CHR ''.''"
  by (auto simp: is_digit_def)

lemma strip_digits:
  assumes "ds \<noteq> []" and "list_all is_digit ds"
  shows "strip ds = ds"
proof -
  from assms have h: "\<not> is_space (hd ds)"
    by (cases ds) (auto dest: digit_not_space)
  from assms have l: "\<not> is_space (last ds)"
    by (metis digit_not_space last_in_set list_all_iff)
  from assms h have 1: "dropWhile is_space ds = ds"
    by (cases ds) auto
  from assms l have 2: "dropWhile is_space (rev ds) = rev ds"
    by (cases "rev ds") (auto simp: hd_rev dest!: arg_cong[where f=hd])
  show ?thesis by (simp add: strip_def 1 2)
qed

lemma py_int_digits:
  assumes "ds \<noteq> []" and "list_all is_digit ds"
  shows "py_int ds = Inr (digits_val ds)"
proof -
  from assms have "hd ds \<noteq> CHR ''-'' \<and> hd ds \<noteq> CHR ''+''"
    by (cases ds) (auto dest: digit_not_sign)
  then show ?thesis
    using assms by (simp add: py_int_def Let_def strip_digits)
qed

lemma takeWhile_digits: "list_all is_digit (takeWhile is_digit cs)"
  by (induction cs) auto

lemma num_group_Some:
  assumes "num_group s = Some (g, r)"
  shows "g \<noteq> [] \<and> list_all is_digit g \<and> s = g @ r"
proof (cases s)
  case Nil
  with assms show ?thesis by simp
next
  case (Cons c cs)
  show ?thesis
  proof (cases "c = CHR ''0''")
    case True
    with assms Cons show ?thesis by (auto simp: is_digit_def)
  next
    case False
    with assms Cons have c: "c \<in> set ''123456789''" and g: "g = c # takeWhile is_digit cs"
      and r: "r = dropWhile is_digit cs"
      by (auto split: if_splits)
    from c have "is_digit c" by (auto simp: is_digit_def)
    with g r Cons show ?thesis by (simp add: takeWhile_digits)
  qed
qed

lemma py_int_group: "num_group s = Some (g, r) \<Longrightarrow> py_int g = Inr (digits_val g)"
  by (auto dest!: num_group_Some intro: py_int_digits)

lemma py_int_zero: "py_int ''0'' = Inr 0"
  by (simp add: py_int_def strip_def is_space_def is_digit_def digits_val_def digit_val_def)

lemma version_to_tup_total: "\<exists>m. version_to_tup version = Inr m"
  by (auto simp: version_to_tup_def mk_module_def re_num3_def re_num3_rest_def re_num2_def
      re_num1_def py_int_zero
      split: option.splits prod.splits sum.splits dest: py_int_group)

text \<open>The strings that match none of the three patterns are those that do not begin with a digit.\<close>

lemma no_pattern_iff:
  "(re_num3 s = None \<and> re_num2 s = None \<and> re_num1 s = None) =
   (s = [] \<or> \<not> is_digit (hd s))"
proof (cases s)
  case Nil
  then show ?thesis
    by (simp add: re_num3_def re_num3_rest_def re_num2_def re_num1_def)
next
  case (Cons c cs)
  have "(num_group (c # cs) = None) = (\<not> is_digit c)"
    by (auto simp: is_digit_def)
  moreover have "num_group s = None \<Longrightarrow> re_num3 s = None \<and> re_num2 s = None"
    by (simp add: re_num3_def re_num3_rest_def re_num2_def)
  moreover have "(re_num1 s = None) = (num_group s = None)"
    by (auto simp: re_num1_def split: option.splits)
  ultimately show ?thesis using Cons by auto
qed

lemma check_conditions_total: "\<exists>b. check_conditions version conditions = Inr b"
proof (induction conditions)
  case Nil
  show ?case by auto
next
  case (Cons c cs)
  obtain lhs where l: "version_to_tup version = Inr lhs"
    using version_to_tup_total by blast
  show ?case
  proof (cases "re_condition c")
    case None
    then show ?thesis by auto
  next
    case (Some t)
    obtain g1 rversion g3 where t: "t = (g1, rversion, g3)"
      by (cases t) auto
    obtain rhs where r: "version_to_tup rversion = Inr rhs"
      using version_to_tup_total by blast
    from Some t l r Cons.IH show ?thesis by (auto simp: Let_def)
  qed
qed

lemma check_total: "\<exists>b. check version conditions = Inr b"
  using check_conditions_total[of version conditions] by (auto simp: check_def)



lemma dot_Some: "dot r = Some r' \<Longrightarrow> r = CHR ''.'' # r'"
  by (cases r) (auto split: if_splits)

lemma re_num3_rest_Some:
  assumes "re_num3_rest s = Some ((a, b, c), r)"
  shows "s = a @ CHR ''.'' # b @ CHR ''.'' # c @ r \<and>
         a \<noteq> [] \<and> list_all is_digit a \<and> b \<noteq> [] \<and> list_all is_digit b \<and>
         c \<noteq> [] \<and> list_all is_digit c"
  using assms
  by (auto simp: re_num3_rest_def split: option.splits prod.splits
      dest!: num_group_Some dot_Some)

text \<open>
  C9, as stated: a string that is not of the form \<open>MAJOR[.MINOR[.PATCH]][+]\<close> gives the
  zero spec with \<open>exact = False\<close>. The string \<open>1.2.3abc\<close> is not of that form and gives
  the spec of \<open>1.2.3\<close>, exact.
\<close>

theorem version_to_tup_prefix_counterexample:
  "version_to_tup ''1.2.3abc'' = Inr \<lparr>major = 1, minor = 2, patch = 3, exact = True\<rparr>"
  by code_simp

lemma version_to_tup_three:
  assumes "re_num3_rest version = Some ((a, b, c), r)"
  shows "version_to_tup version =
           Inr \<lparr>major = digits_val a, minor = digits_val b, patch = digits_val c,
                exact = (fst (opt_plus r) \<noteq> ''+'')\<rparr>"
proof -
  from re_num3_rest_Some[OF assms] have "py_int a = Inr (digits_val a)"
    "py_int b = Inr (digits_val b)" "py_int c = Inr (digits_val c)"
    by (simp_all add: py_int_digits)
  with assms show ?thesis
    by (simp add: version_to_tup_def re_num3_def mk_module_def)
qed

text \<open>
  C9, amended. The patterns are matched at the start of the string only, so the strings
  on which none of the three patterns matches are those that do not begin with a decimal
  digit; for these \<open>version_to_tup\<close> returns the zero spec with \<open>exact = False\<close>. A
  string that begins with a three-component version is read from that prefix, whatever
  follows it. \<open>version_to_tup\<close> raises on no string: every \<open>int()\<close> is applied to a group
  of decimal digits.
\<close>

theorem version_to_tup_no_digit:
  "((re_num3 version = None \<and> re_num2 version = None \<and> re_num1 version = None) =
      (version = [] \<or> \<not> is_digit (hd version))) \<and>
   (version = [] \<or> \<not> is_digit (hd version) \<longrightarrow>
      version_to_tup version = Inr \<lparr>major = 0, minor = 0, patch = 0, exact = False\<rparr>) \<and>
   (\<forall>a b c r. re_num3_rest version = Some ((a, b, c), r) \<longrightarrow>
      version_to_tup version =
        Inr \<lparr>major = digits_val a, minor = digits_val b, patch = digits_val c,
             exact = (fst (opt_plus r) \<noteq> ''+'')\<rparr>) \<and>
   (\<exists>m. version_to_tup version = Inr m)"
proof -
  have A: "(re_num3 version = None \<and> re_num2 version = None \<and> re_num1 version = None) =
      (version = [] \<or> \<not> is_digit (hd version))"
    by (rule no_pattern_iff)
  have B: "version = [] \<or> \<not> is_digit (hd version) \<longrightarrow>
      version_to_tup version = Inr \<lparr>major = 0, minor = 0, patch = 0, exact = False\<rparr>"
  proof
    assume h: "version = [] \<or> \<not> is_digit (hd version)"
    with A have "re_num3 version = None \<and> re_num2 version = None \<and> re_num1 version = None"
      by simp
    then show "version_to_tup version = Inr \<lparr>major = 0, minor = 0, patch = 0, exact = False\<rparr>"
      by (simp add: version_to_tup_def)
  qed
  have C: "\<forall>a b c r. re_num3_rest version = Some ((a, b, c), r) \<longrightarrow>
      version_to_tup version =
        Inr \<lparr>major = digits_val a, minor = digits_val b, patch = digits_val c,
             exact = (fst (opt_plus r) \<noteq> ''+'')\<rparr>"
    using version_to_tup_three by blast
  have D: "\<exists>m. version_to_tup version = Inr m"
    by (rule version_to_tup_total)
  show ?thesis
    by (intro conjI) (rule A B C D)+
qed

theorem version_to_tup_no_digit_witness:
  "\<not> is_digit (hd ''abc'') \<and>
   re_num3 ''abc'' = None \<and> re_num2 ''abc'' = None \<and> re_num1 ''abc'' = None \<and>
   version_to_tup ''abc'' = Inr \<lparr>major = 0, minor = 0, patch = 0, exact = False\<rparr> \<and>
   re_num3_rest ''1.2.3abc'' = Some ((''1'', ''2'', ''3''), ''abc'') \<and>
   version_to_tup ''1.2.3abc'' =
     Inr \<lparr>major = digits_val ''1'', minor = digits_val ''2'', patch = digits_val ''3'',
          exact = True\<rparr>"
proof -
  have d: "\<not> is_digit (hd ''abc'')"
    by (simp add: is_digit_def)
  have r: "re_num3_rest ''1.2.3abc'' = Some ((''1'', ''2'', ''3''), ''abc'')"
    by code_simp
  note t = version_to_tup_no_digit[of "''abc''"]
  from t d have 1: "re_num3 ''abc'' = None \<and> re_num2 ''abc'' = None \<and> re_num1 ''abc'' = None"
    by simp
  from t d have 2: "version_to_tup ''abc'' = Inr \<lparr>major = 0, minor = 0, patch = 0, exact = False\<rparr>"
    by simp
  from version_to_tup_no_digit[of "''1.2.3abc''"] r
  have "version_to_tup ''1.2.3abc'' =
     Inr \<lparr>major = digits_val ''1'', minor = digits_val ''2'', patch = digits_val ''3'',
          exact = (fst (opt_plus ''abc'') \<noteq> ''+'')\<rparr>"
    by blast
  then have 3: "version_to_tup ''1.2.3abc'' =
     Inr \<lparr>major = digits_val ''1'', minor = digits_val ''2'', patch = digits_val ''3'',
          exact = True\<rparr>"
    by simp
  from d 1 2 r 3 show ?thesis by blast
qed

subsection \<open>module\_match\<close>

text \<open>What the expression of \<open>module_match\<close> amounts to for a spec with a nonzero major.\<close>

lemma match_tup_open:
  "major ver \<noteq> 0 \<Longrightarrow> \<not> exact ver \<Longrightarrow>
   match_tup ver oth =
     ((minor ver = 0 \<and> major ver \<le> major oth) \<or>
      (patch ver = 0 \<and> minor ver \<le> minor oth) \<or>
      (major oth = major ver \<and> minor oth = minor ver \<and> patch ver \<le> patch oth))"
  by (auto simp: match_tup_def)

lemma match_tup_exact:
  "major ver \<noteq> 0 \<Longrightarrow> exact ver \<Longrightarrow>
   match_tup ver oth =
     ((minor ver = 0 \<and> major oth = major ver) \<or>
      (patch ver = 0 \<and> major oth = major ver \<and> minor oth = minor ver) \<or>
      (minor oth = minor ver \<and> patch oth = patch ver))"
  by (auto simp: match_tup_def)

text \<open>
  C1. An open-range spec \<open>1.2+\<close> is to match \<open>1.5.0\<close> and to reject \<open>0.9.0\<close>, whose major
  is lower. The second disjunct of the open-range branch compares the candidate's major
  with itself, so the candidate \<open>0.9.0\<close> is accepted on its minor alone.
\<close>

theorem module_match_open_range_lower_major:
  "module_match (Str ''1.2+'') (Str ''1.5.0'') = Inr True \<and>
   module_match (Str ''1.2+'') (Str ''0.9.0'') = Inr True"
  by code_simp

text \<open>
  C2. An exact spec \<open>1.2.3\<close> is to match only candidates equal on major, minor and patch.
  The third disjunct of the exact branch compares the required major with itself, so the
  candidate \<open>9.2.3\<close> is accepted; the examples \<open>1.2\<close> against \<open>1.2.0\<close> and \<open>1.3.0\<close> come
  out as the claim says.
\<close>

theorem module_match_exact_other_major:
  "module_match (Str ''1.2.3'') (Str ''9.2.3'') = Inr True \<and>
   module_match (Str ''1.2'') (Str ''1.2.0'') = Inr True \<and>
   module_match (Str ''1.2'') (Str ''1.3.0'') = Inr False"
  by code_simp

subsection \<open>check\<close>

text \<open>
  C3. A condition that does not parse is to count as false for that condition only. The
  loop of \<open>check\<close> returns False at the first such condition, so a satisfied condition
  after it is never looked at: \<open>>0.5\<close> alone is satisfied by \<open>1.0.0\<close>, and is not
  reached behind \<open>bogus\<close>.
\<close>

theorem check_stops_at_unparsable_condition:
  "check ''1.0.0'' [''>0.5''] = Inr True \<and>
   re_condition ''bogus'' = None \<and>
   check ''1.0.0'' [''bogus'', ''>0.5''] = Inr False"
  by code_simp

text \<open>
  C7, as stated: \<open>check("4.0.0", ["<3.1"])\<close> is true. It is not.
\<close>

theorem check_higher_major_counterexample:
  "check ''4.0.0'' [''<3.1''] \<noteq> Inr True"
  by code_simp

text \<open>
  C7, amended. Under the cascading comparison \<open>check("3.0.1", ["<3.1"])\<close> is true (the
  majors are equal and the minor decides), and \<open>check("4.0.0", ["<3.1"])\<close> is false: the
  major 4 is not below 3, and with different majors neither minor nor patch is compared.
\<close>

theorem check_cascade_examples:
  "check ''3.0.1'' [''<3.1''] = Inr True \<and> check ''4.0.0'' [''<3.1''] = Inr False"
  by code_simp

section \<open>Properties of get\_prerequisites.py\<close>

subsection \<open>recursive\_solve\<close>

text \<open>
  C5, as stated: at depth 0 \<open>recursive_solve\<close> returns the singleton of its argument. It
  returns the empty set.
\<close>

theorem recursive_solve_depth_zero_counterexample:
  "recursive_solve world1 args1 (''foo'', Some ''1.9.0'') 0 \<noteq> Inr {(''foo'', Some ''1.9.0'')}"
  by simp

text \<open>
  C5, amended. For every dependency, \<open>recursive_solve\<close> at depth 0 returns the empty set:
  it does not recurse, reads nothing and does not fail, and the dependency itself is not
  in the result.
\<close>

theorem recursive_solve_depth_zero: "recursive_solve w a module 0 = Inr {}"
  by simp

text \<open>
  C10. For a dependency with a non-empty version and a depth above 0, if the include
  directory of the module for the base version is missing, or the dependency file of the
  module (under the value of EPICS\_MODULES\_PATH) is missing, \<open>recursive_solve\<close> returns
  the singleton of the dependency and no error.
\<close>

theorem recursive_solve_truncated:
  assumes "version \<noteq> []" and "0 < depth"
    and "\<not> isdir w (include_path a name version) \<or>
         (\<exists>mods. environ w ''EPICS_MODULES_PATH'' = Some mods \<and>
                 \<not> isfile w (depfile_path mods a name version))"
  shows "recursive_solve w a (name, Some version) depth = Inr {(name, Some version)}"
proof -
  from assms(2) obtain d where d: "depth = Suc d"
    by (cases depth) auto
  from assms(1,3) show ?thesis
    unfolding d by (auto simp: getenv_def isfile_def Let_def)
qed

theorem recursive_solve_truncated_witness:
  "\<not> isdir world1 (include_path args1 ''foo'' ''1.9.0'') \<and>
   isdir world1 (include_path args1 ''qux'' ''1.0.0'') \<and>
   \<not> isfile world1 (depfile_path ''/epics/modules'' args1 ''qux'' ''1.0.0'') \<and>
   recursive_solve world1 args1 (''foo'', Some ''1.9.0'') 10 = Inr {(''foo'', Some ''1.9.0'')} \<and>
   recursive_solve world1 args1 (''qux'', Some ''1.0.0'') 10 = Inr {(''qux'', Some ''1.0.0'')}"
proof -
  have 1: "\<not> isdir world1 (include_path args1 ''foo'' ''1.9.0'')"
    by code_simp
  have 2: "environ world1 ''EPICS_MODULES_PATH'' = Some ''/epics/modules'' \<and>
        \<not> isfile world1 (depfile_path ''/epics/modules'' args1 ''qux'' ''1.0.0'')"
    by code_simp
  have 3: "isdir world1 (include_path args1 ''qux'' ''1.0.0'')"
    by code_simp
  have a: "recursive_solve world1 args1 (''foo'', Some ''1.9.0'') 10 = Inr {(''foo'', Some ''1.9.0'')}"
    using 1 by (intro recursive_solve_truncated) simp_all
  have b: "recursive_solve world1 args1 (''qux'', Some ''1.0.0'') 10 = Inr {(''qux'', Some ''1.0.0'')}"
    using 2 by (intro recursive_solve_truncated) simp_all
  from a b 1 2 3 show ?thesis by simp
qed

subsection \<open>The key of a strictly numeric version\<close>





subsection \<open>The strict pattern and the strictly numeric versions\<close>










lemma numeral_digits: "numeral a \<Longrightarrow> a \<noteq> [] \<and> list_all is_digit a"
  by (simp add: numeral_def)












subsection \<open>module\_version\<close>









text \<open>An entry found in a default file is a line \<open>module,version\<close> of the file.\<close>

lemma rsplit1_Some:
  assumes "rsplit1 sep s = (a, Some b)"
  shows "s = a @ sep # b \<and> sep \<notin> set b"
proof -
  let ?p = "\<lambda>c. c \<noteq> sep"
  from assms have in_s: "sep \<in> set s"
    and a: "a = rev (tl (dropWhile ?p (rev s)))" and b: "b = rev (takeWhile ?p (rev s))"
    by (auto simp: rsplit1_def split: if_splits)
  from in_s have "dropWhile ?p (rev s) \<noteq> []"
    by (simp add: dropWhile_eq_Nil_conv)
  then have d: "dropWhile ?p (rev s) = sep # tl (dropWhile ?p (rev s))"
    using hd_dropWhile[of ?p "rev s"] by (cases "dropWhile ?p (rev s)") auto
  have "rev s = takeWhile ?p (rev s) @ dropWhile ?p (rev s)" by simp
  with d have "rev s = takeWhile ?p (rev s) @ sep # tl (dropWhile ?p (rev s))" by simp
  then have "rev (rev s) = rev (takeWhile ?p (rev s) @ sep # tl (dropWhile ?p (rev s)))"
    by (rule arg_cong)
  then have "s = a @ sep # b" by (simp add: a b)
  moreover have "sep \<notin> set b"
    unfolding b by (auto dest: set_takeWhileD)
  ultimately show ?thesis by simp
qed

lemma search_lines_entry:
  "search_lines lines module = Inr (Some v) \<Longrightarrow>
   \<exists>line \<in> set lines. strip line = module @ CHR '','' # v"
proof (induction lines)
  case Nil
  then show ?case by simp
next
  case (Cons l ls)
  obtain l0 l1 where r: "rsplit1 CHR '','' (strip l) = (l0, l1)"
    by (cases "rsplit1 CHR '','' (strip l)")
  show ?case
  proof (cases "l0 = module")
    case True
    with Cons.prems r have "l1 = Some v"
      by (auto split: option.splits)
    with r True rsplit1_Some[of "CHR '',''" "strip l" module v] show ?thesis by simp
  next
    case False
    with Cons r show ?thesis by simp
  qed
qed







subsection \<open>DependencyResolver\<close>

text \<open>What the constructor puts into the set, and what the detection may add to it.\<close>

lemma init_ud_result:
  "init_ud w name eb ta ud D0 = Inr D \<Longrightarrow>
   D = D0 \<union> {(ud_name u, v) | u v. u \<in> set ud \<and> ud_name u \<noteq> name \<and> ud_version w eb ta u = Inr v}"
proof (induction ud arbitrary: D0)
  case Nil
  then show ?case by simp
next
  case (Cons u ud)
  from Cons.prems obtain v where v: "ud_version w eb ta u = Inr v"
    by (auto split: sum.splits)
  show ?case
  proof (cases "ud_name u = name")
    case True
    with Cons.prems v have "init_ud w name eb ta ud D0 = Inr D" by simp
    from Cons.IH[OF this] True show ?thesis by auto
  next
    case False
    with Cons.prems v have "init_ud w name eb ta ud (insert (ud_name u, v) D0) = Inr D" by simp
    from Cons.IH[OF this] False v show ?thesis by auto
  qed
qed

lemma add_dependency_result:
  assumes "add_dependency w self m = Inr self'"
  shows "self' = self \<or>
         (m \<notin> set (map ud_name (self_ud self)) \<and>
          (\<exists>v. self' = self\<lparr>self_dependencies := insert (m, v) (self_dependencies self)\<rparr>))"
  using assms by (auto simp: add_dependency_def split: if_splits sum.splits)

lemma resolve_versions_result:
  assumes "resolve_versions w sc self m path vs = Inr self'"
  shows "self' = self \<or>
         (m \<notin> set (map ud_name (self_ud self)) \<and>
          (\<exists>v. self' = self\<lparr>self_dependencies := insert (m, v) (self_dependencies self)\<rparr>))"
  using assms
proof (induction vs)
  case Nil
  then show ?case by simp
next
  case (Cons v vs)
  then show ?case
    by (auto split: if_splits dest: add_dependency_result)
qed

lemma unique_names_insert:
  "unique_names D \<Longrightarrow> m \<notin> fst ` D \<Longrightarrow> unique_names (insert (m, v) D)"
  by (force simp: unique_names_def)

lemma detected_refl: "detected self self"
  by (simp add: detected_def)

lemma detected_trans: "detected a b \<Longrightarrow> detected b c \<Longrightarrow> detected a c"
  by (fastforce simp: detected_def)

lemma detected_step:
  assumes "resolve_versions w sc self m path vs = Inr self'" and "\<not> depends_on self m"
  shows "detected self self'"
proof -
  from resolve_versions_result[OF assms(1)] show ?thesis
  proof
    assume "self' = self"
    then show ?thesis by (simp add: detected_refl)
  next
    assume "m \<notin> set (map ud_name (self_ud self)) \<and>
          (\<exists>v. self' = self\<lparr>self_dependencies := insert (m, v) (self_dependencies self)\<rparr>)"
    then obtain v where m: "m \<notin> set (map ud_name (self_ud self))"
      and s: "self' = self\<lparr>self_dependencies := insert (m, v) (self_dependencies self)\<rparr>"
      by blast
    from assms(2) have "m \<notin> fst ` self_dependencies self"
      by (simp add: depends_on_def)
    with m s show ?thesis
      by (auto simp: detected_def intro: unique_names_insert)
  qed
qed

lemma resolve_modules_detected:
  "resolve_modules w sc self ms = Inr self' \<Longrightarrow> detected self self'"
proof (induction ms arbitrary: self)
  case Nil
  then show ?case by (simp add: detected_refl)
next
  case (Cons m ms)
  show ?case
  proof (cases "m = self_name self \<or> depends_on self m \<or>
               \<not> isdir w (path_join (self_prefix self) [m]) \<or>
               fs_links w (path_join (self_prefix self) [m])")
    case True
    with Cons.prems have "resolve_modules w sc self ms = Inr self'"
      by (auto simp: Let_def split: if_splits)
    then show ?thesis by (rule Cons.IH)
  next
    case False
    with Cons.prems obtain vs self1 where
      1: "resolve_versions w sc self m (path_join (self_prefix self) [m]) vs = Inr self1"
      and 2: "resolve_modules w sc self1 ms = Inr self'"
      by (auto simp: Let_def listdir_def isdir_def split: sum.splits option.splits)
    from False have "\<not> depends_on self m" by simp
    from detected_step[OF 1 this] Cons.IH[OF 2] show ?thesis
      by (rule detected_trans)
  qed
qed


lemma resolve_detected:
  assumes "resolve w sc self = Inr self'"
  shows "detected self self'"
proof -
  let ?ms = "scan_subs w sc (files_subs (self_files self))
               (scan_db w sc (files_db (self_files self))
                 (scan_dep w sc (files_dep (self_files self)) (self_matches self)))"
  let ?self1 = "self\<lparr>self_matches := ?ms\<rparr>"
  from assms obtain installed where "resolve_modules w sc ?self1 installed = Inr self'"
    by (auto simp: resolve_def Let_def split: sum.splits)
  from resolve_modules_detected[OF this] show ?thesis
    by (simp add: detected_def)
qed

lemma resolved_deps_cases:
  assumes "resolved_deps w sc name files prefix eb ta ud = Inr D"
  obtains D0 where
    "D0 = {(ud_name u, v) | u v. u \<in> set ud \<and> ud_name u \<noteq> name \<and> ud_version w eb ta u = Inr v}"
    "D0 \<subseteq> D"
    "\<forall>(m, v) \<in> D - D0. m \<notin> set (map ud_name ud)"
    "unique_names D0 \<longrightarrow> unique_names D"
proof -
  from assms obtain D0 self self' where i: "init_ud w name eb ta ud {} = Inr D0"
    and s: "self = \<lparr>self_name = name, self_files = files, self_prefix = prefix,
               self_eb_version = eb, self_ta = ta, self_ud = ud,
               self_dependencies = D0,
               self_matches = \<lparr>matches_headers = {}, matches_records = {},
                                matches_dtyps = {}, matches_templates = {}\<rparr>\<rparr>"
    and r: "resolve w sc self = Inr self'" and d: "D = self_dependencies self'"
    by (auto simp: resolved_deps_def DependencyResolver_def list_deps_def split: sum.splits)
  from init_ud_result[OF i] have
    1: "D0 = {(ud_name u, v) | u v. u \<in> set ud \<and> ud_name u \<noteq> name \<and> ud_version w eb ta u = Inr v}"
    by simp
  from resolve_detected[OF r] s d have
    "D0 \<subseteq> D" "\<forall>(m, v) \<in> D - D0. m \<notin> set (map ud_name ud)" "unique_names D0 \<longrightarrow> unique_names D"
    by (auto simp: detected_def)
  with 1 that show ?thesis by blast
qed

text \<open>
  C4, as stated: in every resolved set a module name appears once at most. Two user
  dependencies for \<open>foo\<close> with different versions are both in the set.
\<close>

theorem resolved_names_unique_counterexample:
  "resolved_deps world1 scanners1 ''app'' files1 ''/epics/modules'' ''3.15'' ''linux''
     [''foo,1.9.0'', ''foo,2.0.0'']
   = Inr {(''foo'', Some ''1.9.0''), (''foo'', Some ''2.0.0''), (''baz'', Some ''3.0.0'')}"
  by code_simp

text \<open>
  C4, amended. If no two user dependencies name the same module with different versions
  (the one given after the comma, or else the one \<open>module_version\<close> finds), then in the
  set the resolver returns each module name appears once at most: the detection adds a
  module only when no pair of the set has its name.
\<close>

theorem resolved_names_unique:
  assumes "resolved_deps w sc name files prefix eb_version ta ud = Inr deps"
    and "\<forall>u1 \<in> set ud. \<forall>u2 \<in> set ud. ud_name u1 = ud_name u2 \<longrightarrow>
           ud_version w eb_version ta u1 = ud_version w eb_version ta u2"
  shows "\<forall>m v1 v2. (m, v1) \<in> deps \<and> (m, v2) \<in> deps \<longrightarrow> v1 = v2"
proof -
  from assms(1) obtain D0 where
    0: "D0 = {(ud_name u, v) | u v. u \<in> set ud \<and> ud_name u \<noteq> name \<and>
                ud_version w eb_version ta u = Inr v}"
    and u: "unique_names D0 \<longrightarrow> unique_names deps"
    by (rule resolved_deps_cases)
  have "unique_names D0"
    unfolding unique_names_def 0 using assms(2) by fastforce
  with u have "unique_names deps" by simp
  then show ?thesis
    by (fastforce simp: unique_names_def)
qed


theorem resolved_names_unique_witness:
  "resolved_deps world1 scanners1 ''app'' files1 ''/epics/modules'' ''3.15'' ''linux''
     [''foo'', ''pthread'']
   = Inr {(''baz'', Some ''3.0.0''), (''pthread'', None), (''foo'', Some ''2.0.0'')} \<and>
   ud_name ''foo'' \<noteq> ud_name ''pthread'' \<and>
   (''foo'', Some ''1.9.0'') \<notin> {(''baz'', Some ''3.0.0''), (''pthread'', None), (''foo'', Some ''2.0.0'')}"
proof -
  have e: "resolved_deps world1 scanners1 ''app'' files1 ''/epics/modules'' ''3.15'' ''linux''
      [''foo'', ''pthread'']
    = Inr {(''baz'', Some ''3.0.0''), (''pthread'', None), (''foo'', Some ''2.0.0'')}"
    by code_simp
  have n: "ud_name ''foo'' \<noteq> ud_name ''pthread''"
    by code_simp
  then have h: "\<forall>u1 \<in> set [''foo'', ''pthread'']. \<forall>u2 \<in> set [''foo'', ''pthread''].
      ud_name u1 = ud_name u2 \<longrightarrow>
      ud_version world1 ''3.15'' ''linux'' u1 = ud_version world1 ''3.15'' ''linux'' u2"
    by auto
  from resolved_names_unique[OF e h] have
    "(''foo'', Some ''1.9.0'') \<notin> {(''baz'', Some ''3.0.0''), (''pthread'', None), (''foo'', Some ''2.0.0'')}"
    by blast
  with e n show ?thesis by blast
qed

text \<open>
  C8, as stated: with the user dependency \<open>baz,2.1.0\<close> the set holds exactly the pair
  \<open>(baz, 2.1.0)\<close> for \<open>baz\<close>. It holds no pair for \<open>baz\<close> when the module being resolved
  is \<open>baz\<close> itself, and two pairs when a second user dependency names \<open>baz\<close> with
  another version.
\<close>

theorem override_wins_counterexample:
  "resolved_deps world1 scanners1 ''baz'' files1 ''/epics/modules'' ''3.15'' ''linux''
     [''baz,2.1.0''] = Inr {} \<and>
   resolved_deps world1 scanners1 ''app'' files1 ''/epics/modules'' ''3.15'' ''linux''
     [''baz,2.1.0'', ''baz,3.0.0''] = Inr {(''baz'', Some ''2.1.0''), (''baz'', Some ''3.0.0'')}"
  by code_simp

lemma ud_baz: "ud_name ''baz,2.1.0'' = ''baz''"
  "ud_version w eb ta ''baz,2.1.0'' = Inr (Some ''2.1.0'')"
  by (simp_all add: ud_name_def ud_version_def rsplit1_def)

text \<open>
  C8, amended. If the user dependency \<open>baz,2.1.0\<close> is given, the module being resolved is
  not \<open>baz\<close>, and no other user dependency names \<open>baz\<close>, then the pair \<open>(baz, 2.1.0)\<close>
  is the one pair of the resolved set for \<open>baz\<close>. The detection is not run for \<open>baz\<close>:
  the loop over the installed modules skips a module the set depends on, and
  \<open>add_dependency\<close> returns at once for a module of the user dependencies, before any
  version is looked up. In the example the detection alone finds \<open>baz\<close> at 3.0.0.
\<close>

theorem override_wins:
  assumes "resolved_deps w sc name files prefix eb_version ta ud = Inr deps"
    and "''baz,2.1.0'' \<in> set ud" and "name \<noteq> ''baz''"
    and "\<forall>u \<in> set ud. ud_name u = ''baz'' \<longrightarrow> u = ''baz,2.1.0''"
  shows "(\<forall>v. ((''baz'', v) \<in> deps) = (v = Some ''2.1.0'')) \<and>
         (\<forall>self. self_ud self = ud \<longrightarrow> add_dependency w self ''baz'' = Inr self) \<and>
         (\<forall>self rest. depends_on self ''baz'' \<longrightarrow>
            resolve_modules w sc self (''baz'' # rest) = resolve_modules w sc self rest)"
proof -
  from assms(1) obtain D0 where
    0: "D0 = {(ud_name u, v) | u v. u \<in> set ud \<and> ud_name u \<noteq> name \<and>
                ud_version w eb_version ta u = Inr v}"
    and sub: "D0 \<subseteq> deps" and new: "\<forall>(m, v) \<in> deps - D0. m \<notin> set (map ud_name ud)"
    by (rule resolved_deps_cases)
  from assms(2) have in_ud: "''baz'' \<in> set (map ud_name ud)"
    using ud_baz(1) by force
  have d0: "((''baz'', v) \<in> D0) = (v = Some ''2.1.0'')" for v
  proof
    assume "(''baz'', v) \<in> D0"
    then obtain u where "u \<in> set ud" "ud_name u = ''baz''" "ud_version w eb_version ta u = Inr v"
      unfolding 0 by auto
    with assms(4) show "v = Some ''2.1.0''"
      by (auto simp: ud_baz)
  next
    assume "v = Some ''2.1.0''"
    with assms(2,3) show "(''baz'', v) \<in> D0"
      unfolding 0 using ud_baz by force
  qed
  have 1: "((''baz'', v) \<in> deps) = (v = Some ''2.1.0'')" for v
  proof -
    from new in_ud have "(''baz'', v) \<notin> deps - D0" by blast
    with sub d0[of v] show ?thesis by blast
  qed
  have 2: "add_dependency w self ''baz'' = Inr self" if "self_ud self = ud" for self
    using that in_ud by (simp add: add_dependency_def)
  have 3: "resolve_modules w sc self (''baz'' # rest) = resolve_modules w sc self rest"
    if "depends_on self ''baz''" for self rest
    using that by (simp add: Let_def)
  from 1 2 3 show ?thesis by blast
qed

theorem override_wins_witness:
  "resolved_deps world1 scanners1 ''app'' files1 ''/epics/modules'' ''3.15'' ''linux'' []
     = Inr {(''baz'', Some ''3.0.0'')} \<and>
   resolved_deps world1 scanners1 ''app'' files1 ''/epics/modules'' ''3.15'' ''linux''
     [''baz,2.1.0''] = Inr {(''baz'', Some ''2.1.0'')} \<and>
   (''baz'', Some ''3.0.0'') \<notin> {(''baz'', Some ''2.1.0'')} \<and>
   resolve_modules world1 scanners1
     \<lparr>self_name = ''app'', self_files = files1, self_prefix = ''/epics/modules'',
      self_eb_version = ''3.15'', self_ta = ''linux'', self_ud = [''baz,2.1.0''],
      self_dependencies = {(''baz'', Some ''2.1.0'')},
      self_matches = \<lparr>matches_headers = {}, matches_records = {}, matches_dtyps = {},
                       matches_templates = {''baz.template''}\<rparr>\<rparr> [''baz'']
   = Inr \<lparr>self_name = ''app'', self_files = files1, self_prefix = ''/epics/modules'',
      self_eb_version = ''3.15'', self_ta = ''linux'', self_ud = [''baz,2.1.0''],
      self_dependencies = {(''baz'', Some ''2.1.0'')},
      self_matches = \<lparr>matches_headers = {}, matches_records = {}, matches_dtyps = {},
                       matches_templates = {''baz.template''}\<rparr>\<rparr>"
proof -
  have a: "resolved_deps world1 scanners1 ''app'' files1 ''/epics/modules'' ''3.15'' ''linux'' []
     = Inr {(''baz'', Some ''3.0.0'')}"
    by code_simp
  have e: "resolved_deps world1 scanners1 ''app'' files1 ''/epics/modules'' ''3.15'' ''linux''
     [''baz,2.1.0''] = Inr {(''baz'', Some ''2.1.0'')}"
    by code_simp
  have h: "''baz,2.1.0'' \<in> set [''baz,2.1.0'']" "''app'' \<noteq> ''baz''"
    "\<forall>u \<in> set [''baz,2.1.0'']. ud_name u = ''baz'' \<longrightarrow> u = ''baz,2.1.0''"
    by simp_all
  note t = override_wins[OF e h]
  from t have 1: "(''baz'', Some ''3.0.0'') \<notin> {(''baz'', Some ''2.1.0'')}"
    by blast
  from t have 2: "resolve_modules world1 scanners1 self [''baz''] = Inr self"
    if "depends_on self ''baz''" for self
    using that by simp
  have 3: "depends_on \<lparr>self_name = ''app'', self_files = files1, self_prefix = ''/epics/modules'',
      self_eb_version = ''3.15'', self_ta = ''linux'', self_ud = [''baz,2.1.0''],
      self_dependencies = {(''baz'', Some ''2.1.0'')},
      self_matches = \<lparr>matches_headers = {}, matches_records = {}, matches_dtyps = {},
                       matches_templates = {''baz.template''}\<rparr>\<rparr> ''baz''"
    by (simp add: depends_on_def)
  from a e 1 2[OF 3] show ?thesis by blast
qed


end
